theory Spec2Isabelle
  imports Main
begin

section \<open>Aggregate expressions of the format fn[:field] (lib/aggregate-expression.js)\<close>

text \<open>
  The module parses, prints and enumerates shorthand aggregate expressions such as
  \<open>sum:amount\<close> and \<open>count\<close>, and applies them to an aggregation builder.
  JavaScript strings are modelled as \<open>string\<close>, arrays as lists, objects with a fixed
  set of properties as records, \<open>undefined\<close> as \<open>None\<close>, and a thrown exception as the
  left summand of a sum type. The field collection is modelled as an array (a list).
\<close>

subsection \<open>Data model\<close>

text \<open>A field: \<open>{ name: string, label: string, dataType: string }\<close>.\<close>

record Field =
  name :: string
  label :: string
  dataType :: string

text \<open>
  The object built by \<open>new AggregateExpression(fn, field)\<close>; \<open>field\<close> is \<open>None\<close>
  where the constructor is called without a field (the property is \<open>undefined\<close>).
\<close>

record AggregateExpression =
  fn :: string
  field :: "Field option"

text \<open>
  What the module can throw: the \<open>ValidationError\<close> of \<open>joi.assert\<close>, and the
  \<open>TypeError\<close> of reading a property of \<open>undefined\<close>.
\<close>

datatype error = ValidationError | TypeError

definition COUNT :: string where "COUNT = ''count''"
definition SUM_FN :: string where "SUM_FN = ''sum''"
definition AVG :: string where "AVG = ''avg''"
definition MAX_FN :: string where "MAX_FN = ''max''"
definition MIN_FN :: string where "MIN_FN = ''min''"

subsection \<open>Library functions the module calls\<close>

text \<open>
  \<open>String.prototype.split\<close> with a one-character separator: the segments between the
  occurrences of the separator, in order; never an empty array.
\<close>

fun split :: "char \<Rightarrow> string \<Rightarrow> string list" where
  "split c [] = [[]]"
| "split c (x # xs) =
     (if x = c then [] # split c xs
      else (case split c xs of [] \<Rightarrow> [[x]] | p # ps \<Rightarrow> (x # p) # ps))"

text \<open>Array indexing: \<open>undefined\<close> out of range.\<close>

fun at :: "'a list \<Rightarrow> nat \<Rightarrow> 'a option" where
  "at [] i = None"
| "at (x # xs) 0 = Some x"
| "at (x # xs) (Suc i) = at xs i"

text \<open>
  \<open>_.find(fields, { name: n })\<close>: the first field whose \<open>name\<close> is \<open>n\<close>. With
  \<open>n\<close> undefined nothing matches, since every field has a name.
\<close>

fun find_name :: "Field list \<Rightarrow> string option \<Rightarrow> Field option" where
  "find_name fs None = None"
| "find_name fs (Some n) = List.find (\<lambda>f. name f = n) fs"

text \<open>\<open>_.difference(xs, vs)\<close>: the elements of \<open>xs\<close> not in \<open>vs\<close>, order and repetitions kept.\<close>

definition difference :: "'a list \<Rightarrow> 'a list \<Rightarrow> 'a list" where
  "difference xs vs = filter (\<lambda>x. x \<notin> set vs) xs"

text \<open>
  \<open>_.intersection(xs, vs)\<close>: the elements of \<open>xs\<close> that are in \<open>vs\<close>, each once, in
  the order of their first occurrence in \<open>xs\<close>.
\<close>

fun intersection_from :: "'a list \<Rightarrow> 'a list \<Rightarrow> 'a list \<Rightarrow> 'a list" where
  "intersection_from seen [] vs = []"
| "intersection_from seen (x # xs) vs =
     (if x \<in> set vs \<and> x \<notin> set seen then x # intersection_from (x # seen) xs vs
      else intersection_from seen xs vs)"

definition intersection :: "'a list \<Rightarrow> 'a list \<Rightarrow> 'a list" where
  "intersection xs vs = intersection_from [] xs vs"

text \<open>
  \<open>joi.assert(expr, joi.string().valid(vs))\<close> on a string: passes when the string is
  one of the allowed values, throws a \<open>ValidationError\<close> otherwise.
\<close>

definition joi_assert_valid :: "string \<Rightarrow> string list \<Rightarrow> error + unit" where
  "joi_assert_valid expr vs = (if expr \<in> set vs then Inr () else Inl ValidationError)"

subsection \<open>internals.valids\<close>

text \<open>The body of the reducer: two pushes, and two more for a number field.\<close>

definition valids_step :: "string list \<Rightarrow> Field \<Rightarrow> string list" where
  "valids_step acc f =
     (let acc1 = acc @ [MAX_FN @ '':'' @ name f];
          acc2 = acc1 @ [MIN_FN @ '':'' @ name f]
      in if dataType f = ''number''
         then (acc2 @ [SUM_FN @ '':'' @ name f]) @ [AVG @ '':'' @ name f]
         else acc2)"

definition valids :: "Field list \<Rightarrow> string list" where
  "valids fs =
     foldl valids_step [COUNT]
       (filter (\<lambda>f. dataType f = ''number'' \<or> dataType f = ''date'') fs)"

subsection \<open>The constructor and the methods of an expression\<close>

definition new_AggregateExpression :: "string \<Rightarrow> Field option \<Rightarrow> AggregateExpression" where
  "new_AggregateExpression fn' field' = \<lparr>fn = fn', field = field'\<rparr>"

text \<open>\<open>label()\<close>: the switch on \<open>fn\<close>; \<open>this.field.label\<close> throws when no field is attached.\<close>

definition field_label :: "AggregateExpression \<Rightarrow> string \<Rightarrow> error + string" where
  "field_label e prefix =
     (case field e of None \<Rightarrow> Inl TypeError | Some f \<Rightarrow> Inr (prefix @ label f))"

definition label_expr :: "AggregateExpression \<Rightarrow> error + string" where
  "label_expr e =
     (if fn e = COUNT then Inr ''Total Count''
      else if fn e = SUM_FN then field_label e ''Total ''
      else if fn e = AVG then field_label e ''Average ''
      else if fn e = MAX_FN then field_label e ''Max ''
      else if fn e = MIN_FN then field_label e ''Min ''
      else Inr ''Unknown'')"

text \<open>\<open>fieldLabel()\<close>: \<open>this.field && this.field.label\<close>.\<close>

definition fieldLabel :: "AggregateExpression \<Rightarrow> string option" where
  "fieldLabel e = (case field e of None \<Rightarrow> None | Some f \<Rightarrow> Some (label f))"

text \<open>\<open>toString()\<close>: \<open>this.field.name\<close> throws when no field is attached.\<close>

definition toString :: "AggregateExpression \<Rightarrow> error + string" where
  "toString e =
     (if fn e = COUNT then Inr COUNT
      else (case field e of
              None \<Rightarrow> Inl TypeError
            | Some f \<Rightarrow> Inr (fn e @ '':'' @ name f)))"

subsection \<open>parse\<close>

text \<open>
  The string is validated against the freshly computed shorthands, split at every colon,
  and the first two segments become the function and the name to look up. Index 0 of
  the segments is always in range (lemma \<open>split_not_Nil\<close>).
\<close>

definition parse :: "Field list \<Rightarrow> string \<Rightarrow> error + AggregateExpression" where
  "parse fs expr =
     (case joi_assert_valid expr (valids fs) of
        Inl err \<Rightarrow> Inl err
      | Inr _ \<Rightarrow>
          (let parts = split CHR '':'' expr
           in Inr (new_AggregateExpression (parts ! 0) (find_name fs (at parts 1)))))"

subsection \<open>The factories\<close>

definition count :: AggregateExpression where
  "count = new_AggregateExpression COUNT None"

definition sum_expr :: "Field \<Rightarrow> AggregateExpression" where
  "sum_expr f = new_AggregateExpression SUM_FN (Some f)"

definition avg :: "Field \<Rightarrow> AggregateExpression" where
  "avg f = new_AggregateExpression AVG (Some f)"

definition max_expr :: "Field \<Rightarrow> AggregateExpression" where
  "max_expr f = new_AggregateExpression MAX_FN (Some f)"

definition min_expr :: "Field \<Rightarrow> AggregateExpression" where
  "min_expr f = new_AggregateExpression MIN_FN (Some f)"

subsection \<open>of\<close>

text \<open>
  \<open>fns\<close> is optional (\<open>None\<close> when omitted); \<open>fns || [...]\<close> replaces only the
  omitted argument, an empty array is truthy and stays empty. The two reducers
  concatenate one mapped copy of the function list per field.
\<close>

definition fns_or_default :: "string list option \<Rightarrow> string list" where
  "fns_or_default fns0 =
     (case fns0 of None \<Rightarrow> [COUNT, SUM_FN, AVG, MAX_FN, MIN_FN] | Some l \<Rightarrow> l)"

definition of_fields :: "Field list \<Rightarrow> string list option \<Rightarrow> AggregateExpression list" where
  "of_fields fs fns0 =
     (let fns = fns_or_default fns0;
          numberFns = difference fns [COUNT];
          dateFns = difference fns [COUNT, SUM_FN, AVG];
          countExprs = map (\<lambda>_. count) (intersection fns [COUNT]);
          numberExprs =
            foldl (\<lambda>acc f. acc @ map (\<lambda>fn'. new_AggregateExpression fn' (Some f)) numberFns) []
              (filter (\<lambda>f. dataType f = ''number'') fs);
          dateExprs =
            foldl (\<lambda>acc f. acc @ map (\<lambda>fn'. new_AggregateExpression fn' (Some f)) dateFns) []
              (filter (\<lambda>f. dataType f = ''date'') fs)
      in (countExprs @ numberExprs) @ dateExprs)"

subsection \<open>The aggregation builder\<close>

text \<open>
  A result bucket of the backend: its key, its document count, and the values of the
  metrics computed for it, by aggregation name (\<open>None\<close>: no such property).
\<close>

record ('k, 'v) bucket =
  key :: 'k
  doc_count :: 'v
  metrics :: "string \<Rightarrow> 'v option"

text \<open>
  What a mapper returns: any value; the default mapper returns the object
  \<open>{ label: l, value: v }\<close>, where \<open>v\<close> is \<open>None\<close> for \<open>undefined\<close>.
\<close>

datatype ('k, 'v, 'r) mapped = LabelValue 'k "'v option" | Other 'r

type_synonym ('k, 'v, 'r) bucket_fn = "('k, 'v) bucket \<Rightarrow> ('k, 'v, 'r) mapped"

text \<open>
  Modelled from the spec: the class \<open>Aggregation\<close> of \<open>lib/aggregation.js\<close> is not
  part of the sources. The spec describes it as a builder that accumulates named
  aggregation specs, ordering configuration and one result mapper, with a fluent
  interface of three capabilities (register a named aggregation, configure an ordering,
  set the bucket mapper). Its state is the record below: the registered aggregations as
  pairs of a name and a spec \<open>{fn: {field: name}}\<close> (a pair of the function and the
  field name), the configured orderings as pairs of a name and a direction, and the
  attached mapper.
\<close>

record ('k, 'v, 'r) Aggregation =
  aggregations :: "(string \<times> (string \<times> string)) list"
  orderings :: "(string \<times> string) list"
  result_mapper :: "('k, 'v, 'r) bucket_fn option"

text \<open>
  Builders are objects mutated in place: a store maps each reference to the state of the
  builder it denotes, and a method takes the reference of its receiver and the store and
  returns the reference it returns and the new store.
\<close>

type_synonym ('k, 'v, 'r) store = "nat \<Rightarrow> ('k, 'v, 'r) Aggregation"

text \<open>
  Modelled from the spec: \<open>agg.aggregation(name, spec)\<close> of the absent builder registers
  the named aggregation on the receiver and returns the receiver (fluent interface).
\<close>

definition aggregation ::
  "nat \<Rightarrow> string \<Rightarrow> string \<times> string \<Rightarrow> ('k, 'v, 'r) store \<Rightarrow> nat \<times> ('k, 'v, 'r) store" where
  "aggregation a nm spec st =
     (a, st(a := (st a)\<lparr>aggregations := aggregations (st a) @ [(nm, spec)]\<rparr>))"

text \<open>
  Modelled from the spec: \<open>agg.configure({ order: { [name]: direction } })\<close> of the
  absent builder records the ordering on the receiver and returns the receiver.
\<close>

definition configure ::
  "nat \<Rightarrow> string \<times> string \<Rightarrow> ('k, 'v, 'r) store \<Rightarrow> nat \<times> ('k, 'v, 'r) store" where
  "configure a ord st =
     (a, st(a := (st a)\<lparr>orderings := orderings (st a) @ [ord]\<rparr>))"

text \<open>
  Modelled from the spec: \<open>agg.mapper(m)\<close> of the absent builder sets the bucket mapper
  of the receiver and returns the receiver.
\<close>

definition mapper ::
  "nat \<Rightarrow> ('k, 'v, 'r) bucket_fn \<Rightarrow> ('k, 'v, 'r) store \<Rightarrow> nat \<times> ('k, 'v, 'r) store" where
  "mapper a m st = (a, st(a := (st a)\<lparr>result_mapper := Some m\<rparr>))"

text \<open>
  Modelled from the spec: the static \<open>Aggregation.bucketMapper(f)\<close> of the absent builder
  turns a callback of a bucket and the bucket's metric values into a mapper of buckets.
\<close>

definition bucketMapper ::
  "(('k, 'v) bucket \<Rightarrow> (string \<Rightarrow> 'v option) \<Rightarrow> ('k, 'v, 'r) mapped) \<Rightarrow> ('k, 'v, 'r) bucket_fn" where
  "bucketMapper f = (\<lambda>b. f b (metrics b))"

subsection \<open>apply\<close>

definition defaultMapper :: "'k \<Rightarrow> 'v option \<Rightarrow> ('k, 'v, 'r) mapped" where
  "defaultMapper l v = LabelValue l v"

text \<open>\<open>mapper || defaultMapper\<close>: an omitted mapper is \<open>None\<close>.\<close>

definition mapper_or_default ::
  "('k \<Rightarrow> 'v option \<Rightarrow> ('k, 'v, 'r) mapped) option \<Rightarrow> 'k \<Rightarrow> 'v option \<Rightarrow> ('k, 'v, 'r) mapped" where
  "mapper_or_default m0 = (case m0 of None \<Rightarrow> defaultMapper | Some m \<Rightarrow> m)"

text \<open>
  \<open>apply(agg, mapper)\<close>: \<open>this.toString()\<close> is evaluated first and can throw; the chain of
  the non-count branch calls each method on what the previous one returned; the callback
  of the count branch ignores the metric values. The result is the returned reference and
  the new store.
\<close>

definition apply_expr ::
  "AggregateExpression \<Rightarrow> nat \<Rightarrow> ('k \<Rightarrow> 'v option \<Rightarrow> ('k, 'v, 'r) mapped) option
     \<Rightarrow> ('k, 'v, 'r) store \<Rightarrow> error + nat \<times> ('k, 'v, 'r) store" where
  "apply_expr e agg m0 st =
     (case toString e of
        Inl err \<Rightarrow> Inl err
      | Inr aggId \<Rightarrow>
          (let m = mapper_or_default m0
           in if fn e \<noteq> COUNT
              then (case field e of
                      None \<Rightarrow> Inl TypeError
                    | Some f \<Rightarrow>
                        (let (r1, s1) = aggregation agg aggId (fn e, name f) st;
                             (r2, s2) = configure r1 (aggId, ''desc'') s1;
                             (r3, s3) = mapper r2 (bucketMapper (\<lambda>b v. m (key b) (v aggId))) s2
                         in Inr (agg, s3)))
              else (let (r1, s1) =
                          mapper agg (bucketMapper (\<lambda>b v. m (key b) (Some (doc_count b)))) st
                    in Inr (agg, s1))))"

subsection \<open>Predicates of the data model\<close>

text \<open>The invariant of the data model: a field is attached exactly when \<open>fn\<close> is not \<open>count\<close>.\<close>

definition invariant :: "AggregateExpression \<Rightarrow> bool" where
  "invariant e = (if fn e = COUNT then field e = None else field e \<noteq> None)"


text \<open>
  The block of a number field as the specification words it: the canonical order
  \<open>sum\<close>, \<open>avg\<close>, \<open>max\<close>, \<open>min\<close> restricted to the allowed functions.
\<close>

definition spec_number_block :: "string list \<Rightarrow> Field \<Rightarrow> AggregateExpression list" where
  "spec_number_block fns f =
     map (\<lambda>fn'. new_AggregateExpression fn' (Some f))
       (filter (\<lambda>fn'. fn' \<in> set fns) [SUM_FN, AVG, MAX_FN, MIN_FN])"

subsection \<open>Example values\<close>

definition amt :: Field where
  "amt = \<lparr>name = ''amt'', label = ''Amount'', dataType = ''number''\<rparr>"

definition created :: Field where
  "created = \<lparr>name = ''created'', label = ''Created'', dataType = ''date''\<rparr>"

definition memo :: Field where
  "memo = \<lparr>name = ''memo'', label = ''Memo'', dataType = ''string''\<rparr>"

definition empty_builder :: "(string, int, unit) Aggregation" where
  "empty_builder = \<lparr>aggregations = [], orderings = [], result_mapper = None\<rparr>"

definition bucket_X :: "(string, int) bucket" where
  "bucket_X = \<lparr>key = ''X'', doc_count = 7, metrics = [''sum:amt'' \<mapsto> 42]\<rparr>"

section \<open>Properties\<close>

lemmas fn_names = COUNT_def SUM_FN_def AVG_def MAX_FN_def MIN_FN_def

subsection \<open>Library functions\<close>

lemma split_not_Nil: "split c s \<noteq> []"
  by (induction s) (auto split: list.splits)


lemma split_count: "split CHR '':'' COUNT = [COUNT]"
  by (simp add: COUNT_def)

lemma split_head:
  "g \<in> {SUM_FN, AVG, MAX_FN, MIN_FN} \<Longrightarrow>
     split CHR '':'' (g @ '':'' @ n) = g # split CHR '':'' n"
  by (auto simp: fn_names)


lemma foldl_append_concat: "foldl (\<lambda>acc x. acc @ g x) a xs = a @ concat (map g xs)"
  by (induction xs arbitrary: a) auto

lemma intersection_from_single:
  "intersection_from seen xs [c] = (if c \<in> set xs \<and> c \<notin> set seen then [c] else [])"
  by (induction xs arbitrary: seen) auto

lemma intersection_single: "intersection xs [c] = (if c \<in> set xs then [c] else [])"
  by (simp add: intersection_def intersection_from_single)

subsection \<open>Enumeration of the valid shorthands\<close>

lemma foldl_valids_step:
  "foldl valids_step acc (filter (\<lambda>f. dataType f = ''number'' \<or> dataType f = ''date'') fs)
     = acc @ concat (map (\<lambda>f.
        if dataType f = ''number''
        then [MAX_FN @ '':'' @ name f, MIN_FN @ '':'' @ name f,
              SUM_FN @ '':'' @ name f, AVG @ '':'' @ name f]
        else if dataType f = ''date'' then [MAX_FN @ '':'' @ name f, MIN_FN @ '':'' @ name f]
        else []) fs)"
  by (induction fs arbitrary: acc) (simp_all add: valids_step_def Let_def)

text \<open>
  C3: the valid shorthands are \<open>count\<close>, then for each field in input order: for a
  number field \<open>max:<name>\<close>, \<open>min:<name>\<close>, \<open>sum:<name>\<close>, \<open>avg:<name>\<close>; for a date
  field \<open>max:<name>\<close>, \<open>min:<name>\<close>; for any other field nothing. Of the empty
  collection they are \<open>count\<close> alone.
\<close>

theorem valids_exact:
  "valids fs =
     ''count'' # concat (map (\<lambda>f.
        if dataType f = ''number''
        then [''max:'' @ name f, ''min:'' @ name f, ''sum:'' @ name f, ''avg:'' @ name f]
        else if dataType f = ''date'' then [''max:'' @ name f, ''min:'' @ name f]
        else []) fs)
   \<and> valids [] = [''count'']"
  unfolding valids_def foldl_valids_step fn_names by (simp cong: if_cong)

lemma valids_set:
  "set (valids fs) = insert COUNT (\<Union>f\<in>set fs.
      if dataType f = ''number''
      then {MAX_FN @ '':'' @ name f, MIN_FN @ '':'' @ name f,
            SUM_FN @ '':'' @ name f, AVG @ '':'' @ name f}
      else if dataType f = ''date'' then {MAX_FN @ '':'' @ name f, MIN_FN @ '':'' @ name f}
      else {})"
proof -
  have "set (if b then xs else if c then ys else []) =
        (if b then set xs else if c then set ys else {})" for b c and xs ys :: "string list"
    by simp
  then show ?thesis
    unfolding valids_def foldl_valids_step by (simp del: append.simps)
qed

lemma valids_mem_iff:
  "s \<in> set (valids fs) \<longleftrightarrow>
     s = COUNT \<or>
     (\<exists>f\<in>set fs.
        (dataType f = ''number'' \<and>
           s \<in> {MAX_FN @ '':'' @ name f, MIN_FN @ '':'' @ name f,
                 SUM_FN @ '':'' @ name f, AVG @ '':'' @ name f}) \<or>
        (dataType f = ''date'' \<and> s \<in> {MAX_FN @ '':'' @ name f, MIN_FN @ '':'' @ name f}))"
proof -
  have "s \<in> (if b then A else if c then B else {}) \<longleftrightarrow> (b \<and> s \<in> A) \<or> (\<not> b \<and> c \<and> s \<in> B)"
    for b c and A B :: "string set"
    by simp
  then have "s \<in> set (valids fs) \<longleftrightarrow>
     s = COUNT \<or>
     (\<exists>f\<in>set fs.
        (dataType f = ''number'' \<and>
           s \<in> {MAX_FN @ '':'' @ name f, MIN_FN @ '':'' @ name f,
                 SUM_FN @ '':'' @ name f, AVG @ '':'' @ name f}) \<or>
        (dataType f \<noteq> ''number'' \<and> dataType f = ''date'' \<and>
           s \<in> {MAX_FN @ '':'' @ name f, MIN_FN @ '':'' @ name f}))"
    unfolding valids_set by (simp only: insert_iff UN_iff)
  also have "\<dots> \<longleftrightarrow> s = COUNT \<or>
     (\<exists>f\<in>set fs.
        (dataType f = ''number'' \<and>
           s \<in> {MAX_FN @ '':'' @ name f, MIN_FN @ '':'' @ name f,
                 SUM_FN @ '':'' @ name f, AVG @ '':'' @ name f}) \<or>
        (dataType f = ''date'' \<and> s \<in> {MAX_FN @ '':'' @ name f, MIN_FN @ '':'' @ name f}))"
  proof -
    have "x = ''date'' \<Longrightarrow> x \<noteq> ''number''" for x :: string by simp
    then show ?thesis by metis
  qed
  finally show ?thesis .
qed

subsection \<open>Bulk generation\<close>

lemma of_fields_concat:
  "of_fields fs fns0 =
     (if COUNT \<in> set (fns_or_default fns0) then [count] else [])
     @ concat (map (\<lambda>f. map (\<lambda>fn'. new_AggregateExpression fn' (Some f))
                      (filter (\<lambda>x. x \<noteq> COUNT) (fns_or_default fns0)))
          (filter (\<lambda>f. dataType f = ''number'') fs))
     @ concat (map (\<lambda>f. map (\<lambda>fn'. new_AggregateExpression fn' (Some f))
                      (filter (\<lambda>x. x \<notin> {COUNT, SUM_FN, AVG}) (fns_or_default fns0)))
          (filter (\<lambda>f. dataType f = ''date'') fs))"
  by (simp add: of_fields_def Let_def foldl_append_concat intersection_single difference_def)

lemma concat_pick:
  "distinct xs \<Longrightarrow> concat (map (\<lambda>x. if x = f then l else []) xs) = (if f \<in> set xs then l else [])"
  by (induction xs) auto

lemma filter_block:
  "filter (\<lambda>e. field e = Some f) (map (\<lambda>fn'. new_AggregateExpression fn' (Some x)) l)
     = (if x = f then map (\<lambda>fn'. new_AggregateExpression fn' (Some f)) l else [])"
  by (induction l) (auto simp: new_AggregateExpression_def)

lemma filter_blocks:
  assumes "distinct xs"
  shows "filter (\<lambda>e. field e = Some f)
           (concat (map (\<lambda>x. map (\<lambda>fn'. new_AggregateExpression fn' (Some x)) l) xs))
         = (if f \<in> set xs then map (\<lambda>fn'. new_AggregateExpression fn' (Some f)) l else [])"
proof -
  have 1: "filter (\<lambda>e. field e = Some f)
           (concat (map (\<lambda>x. map (\<lambda>fn'. new_AggregateExpression fn' (Some x)) l) xs))
        = concat (map (\<lambda>x. if x = f then map (\<lambda>fn'. new_AggregateExpression fn' (Some f)) l else []) xs)"
    by (simp add: filter_concat comp_def filter_block)
  show ?thesis unfolding 1 by (rule concat_pick [OF assms])
qed

text \<open>
  C5: the result of \<open>of\<close> is one \<open>count\<close> expression exactly when \<open>count\<close> is among the
  allowed functions, then one block per number field in input order, then one block per
  date field in input order; fields of any other data type contribute nothing. For the
  single number field \<open>amt\<close> and the functions \<open>sum\<close>, \<open>count\<close> the result is the
  \<open>count\<close> expression followed by the sum of \<open>amt\<close>.
\<close>

theorem of_fields_order:
  "of_fields fs fns0 =
     (if COUNT \<in> set (fns_or_default fns0) then [count] else [])
     @ concat (map (\<lambda>f. map (\<lambda>fn'. new_AggregateExpression fn' (Some f))
                      (filter (\<lambda>x. x \<noteq> COUNT) (fns_or_default fns0)))
          (filter (\<lambda>f. dataType f = ''number'') fs))
     @ concat (map (\<lambda>f. map (\<lambda>fn'. new_AggregateExpression fn' (Some f))
                      (filter (\<lambda>x. x \<notin> {COUNT, SUM_FN, AVG}) (fns_or_default fns0)))
          (filter (\<lambda>f. dataType f = ''date'') fs))
   \<and> of_fields [\<lparr>name = ''amt'', label = ''Amount'', dataType = ''number''\<rparr>]
         (Some [''sum'', ''count''])
       = [count, sum_expr \<lparr>name = ''amt'', label = ''Amount'', dataType = ''number''\<rparr>]"
proof
  show "of_fields fs fns0 =
     (if COUNT \<in> set (fns_or_default fns0) then [count] else [])
     @ concat (map (\<lambda>f. map (\<lambda>fn'. new_AggregateExpression fn' (Some f))
                      (filter (\<lambda>x. x \<noteq> COUNT) (fns_or_default fns0)))
          (filter (\<lambda>f. dataType f = ''number'') fs))
     @ concat (map (\<lambda>f. map (\<lambda>fn'. new_AggregateExpression fn' (Some f))
                      (filter (\<lambda>x. x \<notin> {COUNT, SUM_FN, AVG}) (fns_or_default fns0)))
          (filter (\<lambda>f. dataType f = ''date'') fs))"
    by (rule of_fields_concat)
  show "of_fields [\<lparr>name = ''amt'', label = ''Amount'', dataType = ''number''\<rparr>]
         (Some [''sum'', ''count''])
       = [count, sum_expr \<lparr>name = ''amt'', label = ''Amount'', dataType = ''number''\<rparr>]"
    by (simp add: of_fields_concat fns_or_default_def fn_names sum_expr_def)
qed

text \<open>
  C4, as stated, fails: the block of a number field is in the canonical order
  \<open>sum\<close>, \<open>avg\<close>, \<open>max\<close>, \<open>min\<close> whatever the order of \<open>fns\<close>. With \<open>fns\<close> the
  array \<open>min\<close>, \<open>sum\<close> the code emits \<open>min\<close> before \<open>sum\<close>.
\<close>

theorem of_fields_canonical_order_counterexample:
  "of_fields [amt] (Some [''min'', ''sum'']) = [min_expr amt, sum_expr amt] \<and>
   spec_number_block [''min'', ''sum''] amt = [sum_expr amt, min_expr amt] \<and>
   of_fields [amt] (Some [''min'', ''sum'']) \<noteq> spec_number_block [''min'', ''sum''] amt"
  by (simp add: of_fields_concat spec_number_block_def fns_or_default_def fn_names amt_def
      min_expr_def sum_expr_def new_AggregateExpression_def)

text \<open>
  C4, amended: for a field that occurs once in the collection, the expressions emitted
  for it are, in order, one per element of \<open>fns\<close> in the order of \<open>fns\<close>: without
  \<open>count\<close> for a number field, without \<open>count\<close>, \<open>sum\<close> and \<open>avg\<close> for a date field,
  and none for any other field. With \<open>fns\<close> omitted this is \<open>sum\<close>, \<open>avg\<close>, \<open>max\<close>,
  \<open>min\<close> for a number field.
\<close>

theorem of_fields_block_order:
  assumes "f \<in> set fs" and "distinct fs"
  shows "filter (\<lambda>e. field e = Some f) (of_fields fs fns0) =
           map (\<lambda>fn'. new_AggregateExpression fn' (Some f))
             (if dataType f = ''number'' then filter (\<lambda>x. x \<noteq> COUNT) (fns_or_default fns0)
              else if dataType f = ''date''
                then filter (\<lambda>x. x \<notin> {COUNT, SUM_FN, AVG}) (fns_or_default fns0)
              else [])"
proof -
  have c: "filter (\<lambda>e. field e = Some f) (if COUNT \<in> set (fns_or_default fns0) then [count] else []) = []"
    by (simp add: count_def new_AggregateExpression_def)
  have n: "distinct (filter (\<lambda>f. dataType f = ''number'') fs)"
    and d: "distinct (filter (\<lambda>f. dataType f = ''date'') fs)"
    using assms(2) by simp_all
  show ?thesis
    using assms(1)
    by (simp only: of_fields_concat filter_append c filter_blocks [OF n] filter_blocks [OF d])
       auto
qed

theorem of_fields_block_order_witness:
  "amt \<in> set [amt, created] \<and> distinct [amt, created] \<and>
   filter (\<lambda>e. field e = Some amt) (of_fields [amt, created] (Some [''min'', ''sum'']))
     = [min_expr amt, sum_expr amt] \<and>
   filter (\<lambda>e. field e = Some amt) (of_fields [amt, created] None)
     = [sum_expr amt, avg amt, max_expr amt, min_expr amt]"
proof -
  have m: "amt \<in> set [amt, created]" by simp
  have d: "distinct [amt, created]" by (simp add: amt_def created_def)
  show ?thesis
    using m d of_fields_block_order [OF m d, of "Some [''min'', ''sum'']"]
      of_fields_block_order [OF m d, of None]
    by (simp add: amt_def fns_or_default_def fn_names
        min_expr_def sum_expr_def avg_def max_expr_def)
qed

text \<open>
  C10: \<open>of\<close> does not check the allowed functions against the five known names. A
  function outside them, alone in \<open>fns\<close>, yields one expression with that function for
  every number field and every date field; listed twice it yields two per field.
\<close>

theorem of_fields_unfiltered:
  assumes "g \<notin> {COUNT, SUM_FN, AVG, MAX_FN, MIN_FN}"
  shows "of_fields fs (Some [g]) =
           map (\<lambda>f. new_AggregateExpression g (Some f)) (filter (\<lambda>f. dataType f = ''number'') fs)
           @ map (\<lambda>f. new_AggregateExpression g (Some f)) (filter (\<lambda>f. dataType f = ''date'') fs)
         \<and> of_fields fs (Some [g, g]) =
           concat (map (\<lambda>f. [new_AggregateExpression g (Some f), new_AggregateExpression g (Some f)])
                    (filter (\<lambda>f. dataType f = ''number'') fs))
           @ concat (map (\<lambda>f. [new_AggregateExpression g (Some f), new_AggregateExpression g (Some f)])
                    (filter (\<lambda>f. dataType f = ''date'') fs))"
proof -
  have "concat (map (\<lambda>f. [h f]) xs) = map h xs" for h :: "Field \<Rightarrow> AggregateExpression" and xs
    by (induction xs) auto
  then show ?thesis
    using assms by (auto simp: of_fields_concat fns_or_default_def)
qed

theorem of_fields_unfiltered_witness:
  "''median'' \<notin> {COUNT, SUM_FN, AVG, MAX_FN, MIN_FN} \<and>
   of_fields [amt, created] (Some [''median'']) =
     [new_AggregateExpression ''median'' (Some amt),
      new_AggregateExpression ''median'' (Some created)] \<and>
   of_fields [amt, created] (Some [''median'', ''median'']) =
     [new_AggregateExpression ''median'' (Some amt),
      new_AggregateExpression ''median'' (Some amt),
      new_AggregateExpression ''median'' (Some created),
      new_AggregateExpression ''median'' (Some created)]"
proof -
  have h: "''median'' \<notin> {COUNT, SUM_FN, AVG, MAX_FN, MIN_FN}"
    by (simp add: fn_names)
  show ?thesis
    using h of_fields_unfiltered [OF h, of "[amt, created]"]
    by (simp add: amt_def created_def)
qed

subsection \<open>Display labels\<close>

text \<open>
  C8: \<open>label()\<close> is \<open>Total Count\<close> for \<open>count\<close>; with a field attached it is
  \<open>Total\<close>, \<open>Average\<close>, \<open>Max\<close> or \<open>Min\<close> followed by a space and the label of the field
  for \<open>sum\<close>, \<open>avg\<close>, \<open>max\<close> and \<open>min\<close>; and \<open>Unknown\<close> for any other function.
\<close>

theorem label_expr_exact:
  "(fn e = COUNT \<longrightarrow> label_expr e = Inr ''Total Count'') \<and>
   (fn e = SUM_FN \<and> field e = Some f \<longrightarrow> label_expr e = Inr (''Total '' @ label f)) \<and>
   (fn e = AVG \<and> field e = Some f \<longrightarrow> label_expr e = Inr (''Average '' @ label f)) \<and>
   (fn e = MAX_FN \<and> field e = Some f \<longrightarrow> label_expr e = Inr (''Max '' @ label f)) \<and>
   (fn e = MIN_FN \<and> field e = Some f \<longrightarrow> label_expr e = Inr (''Min '' @ label f)) \<and>
   (fn e \<notin> {COUNT, SUM_FN, AVG, MAX_FN, MIN_FN} \<longrightarrow> label_expr e = Inr ''Unknown'')"
  by (simp add: label_expr_def field_label_def fn_names)

theorem label_expr_exact_witness:
  "label_expr count = Inr ''Total Count'' \<and>
   label_expr (sum_expr amt) = Inr ''Total Amount'' \<and>
   label_expr (avg amt) = Inr ''Average Amount'' \<and>
   label_expr (max_expr created) = Inr ''Max Created'' \<and>
   label_expr (min_expr created) = Inr ''Min Created'' \<and>
   label_expr (new_AggregateExpression ''median'' (Some amt)) = Inr ''Unknown''"
  using label_expr_exact [of count]
    label_expr_exact [of "sum_expr amt" amt]
    label_expr_exact [of "avg amt" amt]
    label_expr_exact [of "max_expr created" created]
    label_expr_exact [of "min_expr created" created]
    label_expr_exact [of "new_AggregateExpression ''median'' (Some amt)"]
  by (simp add: count_def sum_expr_def avg_def max_expr_def min_expr_def
      new_AggregateExpression_def fn_names amt_def created_def)

subsection \<open>Parsing\<close>


lemma parse_fn_known:
  assumes "s \<in> set (valids fs)"
  shows "split CHR '':'' s ! 0 \<in> {COUNT, SUM_FN, AVG, MAX_FN, MIN_FN}"
proof -
  from assms consider "s = COUNT"
    | g n where "g \<in> {SUM_FN, AVG, MAX_FN, MIN_FN}" "s = g @ '':'' @ n"
    unfolding valids_mem_iff by blast
  then show ?thesis
  proof cases
    case 1
    then show ?thesis by (simp add: split_count)
  next
    case 2
    then show ?thesis using split_head [OF 2(1), of n] by simp
  qed
qed


text \<open>
  C2: \<open>parse\<close> throws a \<open>ValidationError\<close> exactly when the string is not one of the
  valid shorthands of the fields; otherwise it returns an expression, whose function is
  one of the five known names, and throws nothing.
\<close>

theorem parse_error_iff:
  "(parse fs s = Inl ValidationError \<longleftrightarrow> s \<notin> set (valids fs)) \<and>
   (s \<in> set (valids fs) \<longleftrightarrow>
      (\<exists>e. parse fs s = Inr e \<and> fn e \<in> {COUNT, SUM_FN, AVG, MAX_FN, MIN_FN})) \<and>
   parse fs s \<noteq> Inl TypeError"
  using parse_fn_known [of s fs]
  by (auto simp: parse_def joi_assert_valid_def Let_def new_AggregateExpression_def)

subsection \<open>Serialization and parsing\<close>






lemma parse_sum_amt: "parse [amt, created] ''sum:amt'' = Inr (sum_expr amt)"
  by (simp add: parse_def joi_assert_valid_def valids_mem_iff sum_expr_def amt_def created_def
      fn_names)

text \<open>
  The shorthand is split at every colon and only the second segment is looked up: on a
  field whose name has a colon the shorthand is valid and the parsed expression has no
  field.
\<close>

lemma parse_colon_in_name:
  "toString (sum_expr \<lparr>name = ''a:b'', label = ''AB'', dataType = ''number''\<rparr>) = Inr ''sum:a:b'' \<and>
   parse [\<lparr>name = ''a:b'', label = ''AB'', dataType = ''number''\<rparr>] ''sum:a:b''
     = Inr (new_AggregateExpression ''sum'' None)"
  by (simp add: toString_def sum_expr_def new_AggregateExpression_def
      fn_names parse_def joi_assert_valid_def valids_mem_iff)

subsection \<open>Application to a builder\<close>



text \<open>
  C7: applying the \<open>count\<close> expression to the builder \<open>agg\<close> only attaches the mapper
  that applies \<open>mapper\<close> to the key and the document count of a bucket, and returns
  \<open>agg\<close>: the registered aggregations and the orderings of \<open>agg\<close>, and every other
  builder, are unchanged.
\<close>

theorem apply_expr_count:
  "apply_expr count agg m0 st =
     Inr (agg, st(agg := (st agg)\<lparr>result_mapper :=
            Some (\<lambda>b. mapper_or_default m0 (key b) (Some (doc_count b)))\<rparr>)) \<and>
   mapper_or_default None k v = LabelValue k v"
  by (simp add: apply_expr_def toString_def count_def new_AggregateExpression_def mapper_def
      bucketMapper_def mapper_or_default_def defaultMapper_def)

lemma apply_expr_count_example:
  "\<exists>st'. apply_expr count 0 None (\<lambda>_. empty_builder) = Inr (0, st') \<and>
      aggregations (st' 0) = [] \<and> orderings (st' 0) = [] \<and>
      map_option (\<lambda>m. m bucket_X) (result_mapper (st' 0)) = Some (LabelValue ''X'' (Some 7))"
  by (simp add: apply_expr_def toString_def count_def new_AggregateExpression_def mapper_def
      bucketMapper_def mapper_or_default_def defaultMapper_def empty_builder_def bucket_X_def)

subsection \<open>No exception under the invariant\<close>

lemma of_fields_invariant:
  "e \<in> set (of_fields fs fns0) \<Longrightarrow> invariant e"
  unfolding of_fields_concat
  by (auto simp: invariant_def count_def new_AggregateExpression_def split: if_splits)

lemma valids_ignores_other:
  "valids (filter (\<lambda>f. dataType f = ''number'' \<or> dataType f = ''date'') fs) = valids fs"
  by (simp add: valids_def)

lemma of_fields_ignores_other:
  "of_fields (filter (\<lambda>f. dataType f = ''number'' \<or> dataType f = ''date'') fs) fns0
     = of_fields fs fns0"
proof -
  have "filter (\<lambda>f. dataType f = ''number'')
          (filter (\<lambda>f. dataType f = ''number'' \<or> dataType f = ''date'') fs)
        = filter (\<lambda>f. dataType f = ''number'') fs"
    and "filter (\<lambda>f. dataType f = ''date'')
          (filter (\<lambda>f. dataType f = ''number'' \<or> dataType f = ''date'') fs)
        = filter (\<lambda>f. dataType f = ''date'') fs"
    by (induction fs) simp_all
  then show ?thesis by (simp only: of_fields_def)
qed

text \<open>
  C9: on an expression that satisfies the invariant, \<open>toString\<close>, \<open>label\<close> and \<open>apply\<close>
  return normally, and \<open>fieldLabel\<close> is the label of the field or nothing; the factories
  and \<open>of\<close> produce only expressions that satisfy the invariant; and fields of a data
  type other than number and date change neither the valid shorthands nor the result of
  \<open>of\<close>. (The factories, the enumeration and \<open>of\<close> have no throwing branch on
  well-formed fields, so their models are plain functions.)
\<close>

theorem no_raise_under_invariant:
  assumes "invariant e"
  shows "(\<exists>s. toString e = Inr s) \<and> (\<exists>s. label_expr e = Inr s) \<and>
         (\<exists>st'. apply_expr e agg m0 st = Inr (agg, st')) \<and>
         fieldLabel e = map_option label (field e) \<and>
         invariant count \<and> invariant (sum_expr f) \<and> invariant (avg f) \<and>
         invariant (max_expr f) \<and> invariant (min_expr f) \<and>
         (\<forall>x\<in>set (of_fields fs fns0). invariant x) \<and>
         valids (filter (\<lambda>f. dataType f = ''number'' \<or> dataType f = ''date'') fs) = valids fs \<and>
         of_fields (filter (\<lambda>f. dataType f = ''number'' \<or> dataType f = ''date'') fs) fns0
           = of_fields fs fns0"
proof -
  have 1: "\<exists>s. toString e = Inr s"
    using assms by (auto simp: invariant_def toString_def split: if_splits)
  have 2: "\<exists>s. label_expr e = Inr s"
    using assms by (auto simp: invariant_def label_expr_def field_label_def split: if_splits)
  have 3: "\<exists>st'. apply_expr e agg m0 st = Inr (agg, st')"
    using assms
    by (auto simp: invariant_def apply_expr_def toString_def aggregation_def configure_def
        mapper_def split: if_splits)
  have 4: "fieldLabel e = map_option label (field e)"
    by (simp add: fieldLabel_def split: option.splits)
  have 5: "invariant count \<and> invariant (sum_expr f) \<and> invariant (avg f) \<and>
         invariant (max_expr f) \<and> invariant (min_expr f)"
    by (simp add: invariant_def count_def sum_expr_def avg_def max_expr_def min_expr_def
        new_AggregateExpression_def fn_names)
  have 6: "\<forall>x\<in>set (of_fields fs fns0). invariant x"
    using of_fields_invariant by blast
  from 1 2 3 4 5 6 valids_ignores_other of_fields_ignores_other show ?thesis by blast
qed

theorem no_raise_under_invariant_witness:
  "invariant (sum_expr amt) \<and>
   toString (sum_expr amt) = Inr ''sum:amt'' \<and>
   label_expr (sum_expr amt) = Inr ''Total Amount'' \<and>
   (\<exists>st'. apply_expr (sum_expr amt) 0 None (\<lambda>_. empty_builder) = Inr (0, st')) \<and>
   fieldLabel (sum_expr amt) = Some ''Amount'' \<and>
   invariant (max_expr created) \<and>
   list_all invariant (of_fields [amt, memo, created] None) \<and>
   valids [amt, memo, created] = valids [amt, created] \<and>
   of_fields [amt, memo, created] None = of_fields [amt, created] None"
proof -
  have i: "invariant (sum_expr amt)"
    by (simp add: invariant_def sum_expr_def new_AggregateExpression_def fn_names)
  have f: "filter (\<lambda>f. dataType f = ''number'' \<or> dataType f = ''date'') [amt, memo, created]
             = [amt, created]"
    by (simp add: amt_def memo_def created_def)
  have t: "toString (sum_expr amt) = Inr ''sum:amt''"
    by (simp add: toString_def sum_expr_def new_AggregateExpression_def fn_names amt_def)
  have l: "label_expr (sum_expr amt) = Inr ''Total Amount''"
    by (simp add: label_expr_def field_label_def sum_expr_def new_AggregateExpression_def
        fn_names amt_def)
  have a: "fieldLabel (sum_expr amt) = Some ''Amount''"
    by (simp add: fieldLabel_def sum_expr_def new_AggregateExpression_def amt_def)
  show ?thesis
    using i t l a
      no_raise_under_invariant [OF i, of 0 None "\<lambda>_. empty_builder" created
        "[amt, memo, created]" None]
    unfolding f list_all_iff by simp
qed

end
